theory Spec2Isabelle
  imports Main "HOL-Library.List_Lexorder" "HOL-Library.Char_ord" "HOL-Library.Product_Lexorder"
begin

section \<open>Syntax trees and the external analyses\<close>

text \<open>
  A gast node is a Python object and is compared by identity; the model gives every node
  a number \<open>nid\<close> that stands for that identity, next to the fields the analysis reads
  (\<open>name\<close>, \<open>id\<close>, \<open>attr\<close>, \<open>value\<close>, \<open>module\<close>, \<open>names\<close>).
\<close>

type_synonym nid = nat

datatype node =
    Module nid
  | FunctionDef nid string
  | AsyncFunctionDef nid string
  | ClassDef nid string
  | Import nid "node list"
  | ImportFrom nid "string option" "node list"
  | Alias nid string
  | Name nid string
  | Attribute nid node string
  | Call nid
  | Expr nid

datatype error = IndexError | AttributeError | SyntaxError | UnicodeDecodeError | AssertionError

text \<open>\<open>isinstance(n, _defs)\<close> with \<open>_defs = AsyncFunctionDef, ClassDef, FunctionDef\<close>.\<close>

fun isinstance_defs :: "node \<Rightarrow> bool" where
  "isinstance_defs (AsyncFunctionDef _ _) = True"
| "isinstance_defs (ClassDef _ _) = True"
| "isinstance_defs (FunctionDef _ _) = True"
| "isinstance_defs _ = False"

text \<open>
  The results of beniget on one module: \<open>locals\<close> is \<open>duc.locals[module]\<close> and
  \<open>users n\<close> the nodes of \<open>duc.chains[n].users()\<close>, in order; \<open>Ancestors.parents\<close> gives
  the enclosing nodes of a node, the root first and the immediate parent last.
\<close>

record DefUseChains =
  locals :: "node list"
  users :: "node \<Rightarrow> node list"

type_synonym Ancestors = "node \<Rightarrow> node list"

text \<open>A Python set of nodes or names is a list without duplicates; \<open>s.add(x)\<close>:\<close>

definition set_add :: "'a \<Rightarrow> 'a list \<Rightarrow> 'a list" where
  "set_add x s = (if x \<in> set s then s else s @ [x])"

fun set_update :: "'a list \<Rightarrow> 'a list \<Rightarrow> 'a list" where
  "set_update s [] = s"
| "set_update s (x # xs) = set_update (set_add x s) xs"

text \<open>\<open>str.split('.')\<close> and \<open>'.'.join\<close>.\<close>

fun split_dot :: "string \<Rightarrow> string list" where
  "split_dot [] = [[]]"
| "split_dot (c # cs) =
     (if c = CHR ''.'' then [] # split_dot cs
      else (case split_dot cs of [] \<Rightarrow> [[c]] | w # ws \<Rightarrow> (c # w) # ws))"

fun join_dot :: "string list \<Rightarrow> string" where
  "join_dot [] = []"
| "join_dot [x] = x"
| "join_dot (x # y # ys) = x @ ''.'' @ join_dot (y # ys)"

section \<open>The decorator matcher: \<open>ImportResolver.collect_deprecated\<close>\<close>

text \<open>
  The \<open>while attrs and parents\<close> loop. \<open>attrs\<close> is the reversed rest of the decorator
  path, so \<open>attrs[-1]\<close> is the next segment; \<open>parents.pop()\<close> removes the innermost
  ancestor before it is tested, also when the loop breaks.
\<close>

function consume_attrs :: "string list \<Rightarrow> node list \<Rightarrow> string list \<times> node list" where
  "consume_attrs attrs ps =
     (if attrs \<noteq> [] \<and> ps \<noteq> [] then
        (case last ps of
           Attribute _ _ a \<Rightarrow>
             if a \<noteq> last attrs then (attrs, butlast ps)
             else consume_attrs (butlast attrs) (butlast ps)
         | _ \<Rightarrow> (attrs, butlast ps))
      else (attrs, ps))"
  by pat_completeness auto
termination
  by (relation "measure (\<lambda>(a, p). length p)") auto

declare consume_attrs.simps [simp del]

text \<open>The body of \<open>for user in dlocal.users()\<close> in the prefix branch, for one user.\<close>

definition prefix_target :: "string list \<Rightarrow> nat \<Rightarrow> Ancestors \<Rightarrow> node \<Rightarrow> error + node option" where
  "prefix_target decorator nbterms ancestors user =
     (case consume_attrs (rev (drop nbterms decorator)) (ancestors user) of
        (attrs, ps) \<Rightarrow>
          if attrs \<noteq> [] then Inr None
          else if ps = [] then Inl IndexError
          else if \<not> isinstance_defs (last ps) then Inr None
          else Inr (Some (last ps)))"

text \<open>The body of \<open>for user in dlocal.users()\<close> in the final-segment branch.\<close>

definition final_target :: "Ancestors \<Rightarrow> node \<Rightarrow> error + node option" where
  "final_target ancestors user =
     (if ancestors user = [] then Inl IndexError
      else if \<not> isinstance_defs (last (ancestors user)) then Inr None
      else Inr (Some (last (ancestors user))))"

text \<open>A loop over users that adds each target to \<open>deprecated\<close>; an exception ends it.\<close>

fun add_targets :: "(node \<Rightarrow> error + node option) \<Rightarrow> node list \<Rightarrow> node list \<Rightarrow> error + node list" where
  "add_targets target [] dep = Inr dep"
| "add_targets target (u # us) dep =
     (case target u of
        Inl e \<Rightarrow> Inl e
      | Inr None \<Rightarrow> add_targets target us dep
      | Inr (Some p) \<Rightarrow> add_targets target us (set_add p dep))"

text \<open>The body of \<open>for dlocal in duc.locals[node]\<close>, for one local definition.\<close>

definition collect_local ::
  "string list \<Rightarrow> DefUseChains \<Rightarrow> Ancestors \<Rightarrow> node \<Rightarrow> node list \<Rightarrow> error + node list" where
  "collect_local decorator duc ancestors dlocal dep =
     (case dlocal of
        Alias _ nm \<Rightarrow>
          (let original_path = split_dot nm; nbterms = length original_path in
           if original_path = take nbterms decorator then
             add_targets (prefix_target decorator nbterms ancestors) (users duc dlocal) dep
           else if original_path = drop (length decorator - 1) decorator then
             (if ancestors dlocal = [] then Inl IndexError
              else (case last (ancestors dlocal) of
                ImportFrom _ md _ \<Rightarrow>
                  if md \<noteq> Some (join_dot (butlast decorator)) then Inr dep
                  else add_targets (final_target ancestors) (users duc dlocal) dep
              | _ \<Rightarrow> Inr dep))
           else Inr dep)
      | _ \<Rightarrow> Inr dep)"

fun collect_locals ::
  "string list \<Rightarrow> DefUseChains \<Rightarrow> Ancestors \<Rightarrow> node list \<Rightarrow> node list \<Rightarrow> error + node list" where
  "collect_locals decorator duc ancestors [] dep = Inr dep"
| "collect_locals decorator duc ancestors (dlocal # ds) dep =
     (case collect_local decorator duc ancestors dlocal dep of
        Inl e \<Rightarrow> Inl e
      | Inr dep' \<Rightarrow> collect_locals decorator duc ancestors ds dep')"

definition collect_deprecated :: "string list \<Rightarrow> DefUseChains \<Rightarrow> Ancestors \<Rightarrow> error + node list" where
  "collect_deprecated decorator duc ancestors =
     collect_locals decorator duc ancestors (locals duc) []"

section \<open>The use-site propagator: \<open>ImportResolver.get_deprecated_users\<close>\<close>

definition user_ancestors :: "Ancestors \<Rightarrow> node \<Rightarrow> node list" where
  "user_ancestors ancestors user = filter isinstance_defs (ancestors user)"

definition get_deprecated_users ::
  "node list \<Rightarrow> DefUseChains \<Rightarrow> Ancestors \<Rightarrow> (node \<times> node \<times> node) list" where
  "get_deprecated_users dep defuse ancestors =
     concat (map (\<lambda>deprecated_node.
       concat (map (\<lambda>user.
         if \<exists>f \<in> set (user_ancestors ancestors user). f \<in> set dep then []
         else [(deprecated_node, user,
                if user_ancestors ancestors user \<noteq> [] then last (user_ancestors ancestors user)
                else user)])
         (users defuse deprecated_node)))
       dep)"

section \<open>The session: cache, visited set and the imported sources\<close>

text \<open>
  \<open>key_factory(module_path)\<close> yields a key with a \<open>module_hash\<close>; the key classes belong
  to \<open>memestra.caching\<close>, so the factory is a parameter of the analysis.
\<close>

datatype cache_key = CacheKey (key_name: string) (module_hash: string)

record entry =
  version :: nat
  generator :: string
  deprecated :: "string list"

text \<open>
  What \<open>ast.parse(fd.read())\<close> and the two beniget visitors give for a file: \<open>stmts\<close> are
  the nodes that \<open>generic_visit\<close> reaches below the \<open>Module\<close> node, in visiting order;
  \<open>fd.read()\<close> raises \<open>UnicodeDecodeError\<close> on \<open>Undecodable\<close> and \<open>ast.parse\<close> raises
  \<open>SyntaxError\<close> on \<open>Malformed\<close>.
\<close>

record parsed_module =
  stmts :: "node list"
  chains :: DefUseChains
  parents :: Ancestors
  lineno :: "node \<Rightarrow> int"
  col_offset :: "node \<Rightarrow> int"

datatype source = Parsed parsed_module | Undecodable | Malformed

text \<open>
  The fixed surroundings of one scan: the fields of the resolver that never change
  (\<open>decorator\<close>, \<open>recursive\<close>, \<open>key_factory\<close>; \<open>file_path\<close> is inside \<open>resolve_module\<close>),
  the file system behind \<open>open\<close>, \<open>Format.version\<close> and \<open>repr\<close>.
\<close>

record env =
  decorator :: "string list"
  recursive :: bool
  resolve_module :: "string option \<Rightarrow> string option"
  key_factory :: "string \<Rightarrow> cache_key"
  read_source :: "string \<Rightarrow> source"
  Format_version :: nat
  repr :: "node \<Rightarrow> string"

text \<open>
  The state shared by a resolver and its children (\<open>parent.cache\<close>, \<open>parent.visited\<close>),
  with the warnings emitted and the files opened so far.
\<close>

record session =
  cache :: "cache_key \<rightharpoonup> entry"
  visited :: "string set"
  warnings :: "(string option \<times> string) list"
  opened :: "string list"

text \<open>
  Modelled from the spec: the \<open>Cache\<close> class of \<open>memestra.caching\<close>, which is not among
  the sources. \<open>get(key) -> Entry | absent\<close> is the map lookup, and \<open>put\<close> persists the
  entry with the current format version.
\<close>

definition cache_put :: "nat \<Rightarrow> cache_key \<Rightarrow> string \<Rightarrow> string list \<Rightarrow> session \<Rightarrow> session" where
  "cache_put fv k gen names st =
     st\<lparr>cache := (cache st)(k \<mapsto> \<lparr>version = fv, generator = gen, deprecated = names\<rparr>)\<rparr>"

section \<open>The import graph walker\<close>

text \<open>\<open>d.name\<close>: definitions and aliases have a \<open>name\<close>, other nodes raise.\<close>

fun node_name :: "node \<Rightarrow> error + string" where
  "node_name (FunctionDef _ n) = Inr n"
| "node_name (AsyncFunctionDef _ n) = Inr n"
| "node_name (ClassDef _ n) = Inr n"
| "node_name (Alias _ n) = Inr n"
| "node_name _ = Inl AttributeError"

text \<open>\<open>{d.name for d in deprecated}\<close> and \<open>[alias.name for alias in node.names]\<close>.\<close>

fun names_of :: "node list \<Rightarrow> error + string list" where
  "names_of [] = Inr []"
| "names_of (d # ds) =
     (case node_name d of
        Inl e \<Rightarrow> Inl e
      | Inr n \<Rightarrow> (case names_of ds of Inl e \<Rightarrow> Inl e | Inr ns \<Rightarrow> Inr (n # ns)))"

text \<open>
  Lines 93 to 100 of \<open>load_deprecated_from_module\<close>: the module's own decorated
  definitions, joined with \<open>deprecated_imports\<close>, are named, cached and returned.
\<close>

definition store_deprecated ::
  "env \<Rightarrow> cache_key \<Rightarrow> parsed_module \<Rightarrow> node list \<Rightarrow> session
     \<Rightarrow> error + (string list option \<times> session)" where
  "store_deprecated E module_key m deprecated_imports st =
     (case collect_deprecated (decorator E) (chains m) (parents m) of
        Inl e \<Rightarrow> Inl e
      | Inr dep \<Rightarrow>
          (case names_of (set_update dep deprecated_imports) of
             Inl e \<Rightarrow> Inl e
           | Inr ns \<Rightarrow>
               Inr (Some (remdups ns),
                    cache_put (Format_version E) module_key ''memestra'' (sort (remdups ns)) st)))"

text \<open>The inner loop of \<open>visit_Import\<close> over the users of one alias.\<close>

fun mark_attributes :: "Ancestors \<Rightarrow> string list \<Rightarrow> node list \<Rightarrow> node list \<Rightarrow> error + node list" where
  "mark_attributes anc names [] dep = Inr dep"
| "mark_attributes anc names (user # us) dep =
     (if anc user = [] then Inl IndexError
      else (case last (anc user) of
        Attribute _ _ a \<Rightarrow>
          if a \<in> set names then mark_attributes anc names us (set_add (last (anc user)) dep)
          else mark_attributes anc names us dep
      | _ \<Rightarrow> mark_attributes anc names us dep))"

text \<open>\<open>aliases.index(deprec)\<close>: the first position, or \<open>ValueError\<close> (here \<open>None\<close>).\<close>

fun list_index :: "'a list \<Rightarrow> 'a \<Rightarrow> nat option" where
  "list_index [] y = None"
| "list_index (x # xs) y = (if x = y then Some 0 else map_option Suc (list_index xs y))"

text \<open>The loop \<open>for deprec in deprecated\<close> of \<open>visit_ImportFrom\<close>.\<close>

fun mark_imported ::
  "DefUseChains \<Rightarrow> node list \<Rightarrow> string list \<Rightarrow> string list \<Rightarrow> node list \<Rightarrow> node list" where
  "mark_imported duc names aliases [] dep = dep"
| "mark_imported duc names aliases (deprec # ds) dep =
     (case list_index aliases deprec of
        None \<Rightarrow> mark_imported duc names aliases ds dep
      | Some i \<Rightarrow> mark_imported duc names aliases ds (set_update dep (users duc (names ! i))))"

text \<open>
  The visitor methods. Each takes as its first argument the method of the resolver that
  it calls: \<open>load\<close> is \<open>self.load_deprecated_from_module\<close>. A result \<open>None\<close> says
  that the analysis did not return, \<open>Some (Inl e)\<close> that \<open>e\<close> was raised. A resolver's
  own \<open>deprecated\<close> set is threaded next to the session.
\<close>

type_synonym loader = "string option \<Rightarrow> session \<Rightarrow> (error + (string list option \<times> session)) option"

type_synonym visitor = "parsed_module \<Rightarrow> session \<Rightarrow> (error + (node list \<times> session)) option"

fun visit_Import ::
  "loader \<Rightarrow> parsed_module \<Rightarrow> node list \<Rightarrow> node list \<times> session
     \<Rightarrow> (error + (node list \<times> session)) option" where
  "visit_Import load m [] r = Some (Inr r)"
| "visit_Import load m (a # as) r =
     (case node_name a of
        Inl e \<Rightarrow> Some (Inl e)
      | Inr nm \<Rightarrow>
          (case load (Some nm) (snd r) of
             None \<Rightarrow> None
           | Some (Inl e) \<Rightarrow> Some (Inl e)
           | Some (Inr (None, st')) \<Rightarrow> visit_Import load m as (fst r, st')
           | Some (Inr (Some names, st')) \<Rightarrow>
               (case mark_attributes (parents m) names (users (chains m) a) (fst r) of
                  Inl e \<Rightarrow> Some (Inl e)
                | Inr dep' \<Rightarrow> visit_Import load m as (dep', st'))))"

definition visit_ImportFrom ::
  "loader \<Rightarrow> parsed_module \<Rightarrow> string option \<Rightarrow> node list \<Rightarrow> node list \<times> session
     \<Rightarrow> (error + (node list \<times> session)) option" where
  "visit_ImportFrom load m md names r =
     (case load md (snd r) of
        None \<Rightarrow> None
      | Some (Inl e) \<Rightarrow> Some (Inl e)
      | Some (Inr (None, st')) \<Rightarrow> Some (Inr (fst r, st'))
      | Some (Inr (Some deps, st')) \<Rightarrow>
          (case names_of names of
             Inl e \<Rightarrow> Some (Inl e)
           | Inr aliases \<Rightarrow>
               Some (Inr (mark_imported (chains m) names aliases deps (fst r), st'))))"

text \<open>\<open>NodeVisitor.visit\<close> on one node below the module.\<close>

definition visit ::
  "loader \<Rightarrow> parsed_module \<Rightarrow> node \<Rightarrow> node list \<times> session
     \<Rightarrow> (error + (node list \<times> session)) option" where
  "visit load m s r =
     (case s of
        Import _ names \<Rightarrow> visit_Import load m names r
      | ImportFrom _ md names \<Rightarrow> visit_ImportFrom load m md names r
      | _ \<Rightarrow> Some (Inr r))"

fun generic_visit ::
  "loader \<Rightarrow> parsed_module \<Rightarrow> node list \<Rightarrow> node list \<times> session
     \<Rightarrow> (error + (node list \<times> session)) option" where
  "generic_visit load m [] r = Some (Inr r)"
| "generic_visit load m (s # ss) r =
     (case visit load m s r of
        None \<Rightarrow> None
      | Some (Inl e) \<Rightarrow> Some (Inl e)
      | Some (Inr r') \<Rightarrow> generic_visit load m ss r')"

definition visit_Module :: "loader \<Rightarrow> env \<Rightarrow> visitor" where
  "visit_Module load E m st =
     (case collect_deprecated (decorator E) (chains m) (parents m) of
        Inl e \<Rightarrow> Some (Inl e)
      | Inr dep \<Rightarrow> generic_visit load m (stmts m) (dep, st))"

text \<open>
  \<open>load_deprecated_from_module\<close> from \<open>with open(module_path)\<close> on. \<open>child\<close> is
  \<open>resolver.visit\<close> of the resolver created for the imported module.
\<close>

definition open_module ::
  "visitor \<Rightarrow> env \<Rightarrow> string \<Rightarrow> cache_key \<Rightarrow> session
     \<Rightarrow> (error + (string list option \<times> session)) option" where
  "open_module child E module_path module_key st =
     (case read_source E module_path of
        Undecodable \<Rightarrow> Some (Inr (Some [], st\<lparr>opened := opened st @ [module_path]\<rparr>))
      | Malformed \<Rightarrow> Some (Inl SyntaxError)
      | Parsed m \<Rightarrow>
          if recursive E \<and> module_path \<notin> visited st then
            (case child m (st\<lparr>opened := opened st @ [module_path],
                               visited := insert module_path (visited st)\<rparr>) of
               None \<Rightarrow> None
             | Some (Inl e) \<Rightarrow> Some (Inl e)
             | Some (Inr (dep, st')) \<Rightarrow>
                 Some (store_deprecated E module_key m
                         (map (\<lambda>(_, _, d). d) (get_deprecated_users dep (chains m) (parents m)))
                         st'))
          else Some (store_deprecated E module_key m []
                       (st\<lparr>opened := opened st @ [module_path]\<rparr>)))"

definition load_deprecated_from_module :: "visitor \<Rightarrow> env \<Rightarrow> loader" where
  "load_deprecated_from_module child E module_name st =
     (case resolve_module E module_name of
        None \<Rightarrow> Some (Inr (None, st))
      | Some module_path \<Rightarrow>
          (case cache st (key_factory E module_path) of
             None \<Rightarrow> open_module child E module_path (key_factory E module_path) st
           | Some data \<Rightarrow>
               if version data = Format_version E
               then Some (Inr (Some (remdups (deprecated data)), st))
               else if generator data = ''manual''
               then Some (Inr (Some [],
                      st\<lparr>warnings := warnings st @
                            [(module_name, module_hash (key_factory E module_path))]\<rparr>))
               else open_module child E module_path (key_factory E module_path) st))"

text \<open>
  The recursion of the resolvers: \<open>resolver_visit n E\<close> is \<open>ImportResolver.visit\<close> when at
  most \<open>n\<close> resolvers may be nested below it; deeper nesting does not return.
\<close>

primrec resolver_visit :: "nat \<Rightarrow> env \<Rightarrow> visitor" where
  "resolver_visit 0 E = visit_Module (load_deprecated_from_module (\<lambda>m st. None) E) E"
| "resolver_visit (Suc n) E =
     visit_Module (load_deprecated_from_module (resolver_visit n E) E) E"

section \<open>The scan: \<open>prettyname\<close> and \<open>memestra\<close>\<close>

fun prettyname :: "(node \<Rightarrow> string) \<Rightarrow> node \<Rightarrow> string" where
  "prettyname rp (FunctionDef _ n) = n"
| "prettyname rp (AsyncFunctionDef _ n) = n"
| "prettyname rp (ClassDef _ n) = n"
| "prettyname rp (Name _ i) = i"
| "prettyname rp (Attribute _ v a) = prettyname rp v @ ''.'' @ a"
| "prettyname rp n = rp n"

text \<open>
  \<open>memestra\<close> on the outcome \<open>src\<close> of reading and parsing the file descriptor, whose
  \<open>name\<close> attribute is \<open>fd_name\<close> if it has one. The new resolver has an empty visited set
  and the cache \<open>c\<close> that the store holds at that moment.
\<close>

definition memestra ::
  "nat \<Rightarrow> env \<Rightarrow> source \<Rightarrow> string option \<Rightarrow> (cache_key \<rightharpoonup> entry)
     \<Rightarrow> (error + ((string \<times> string \<times> int \<times> int) list \<times> session)) option" where
  "memestra n E src fd_name c =
     (if \<not> length (decorator E) > 1 then Some (Inl AssertionError)
      else (case src of
        Undecodable \<Rightarrow> Some (Inl UnicodeDecodeError)
      | Malformed \<Rightarrow> Some (Inl SyntaxError)
      | Parsed module \<Rightarrow>
          (case resolver_visit n E module
                  \<lparr>cache = c, visited = {}, warnings = [], opened = []\<rparr> of
             None \<Rightarrow> None
           | Some (Inl e) \<Rightarrow> Some (Inl e)
           | Some (Inr (dep, st)) \<Rightarrow>
               Some (Inr (sort (map (\<lambda>(deprecated_node, user, _).
                                  (prettyname (repr E) deprecated_node,
                                   (case fd_name of None \<Rightarrow> ''<>'' | Some nm \<Rightarrow> nm),
                                   lineno module user,
                                   col_offset module user))
                               (get_deprecated_users dep (chains module) (parents module))),
                          st)))))"

section \<open>Example modules\<close>

text \<open>
  The module used in the examples, with the decorator path \<open>d.dep\<close>:
  \<^verbatim>\<open>
   1  import d
   2  @d.dep
   3  def f(): pass
   4  @d.dep("soon")
   5  def g(): f()
   6  f()
   7  def h():
   8      f()
   9  @d.dep
  10  def k(): f()
  \<close>
\<close>

definition example_decorator :: "string list" where
  "example_decorator = [''d'', ''dep'']"

definition example_module :: parsed_module where
  "example_module =
     \<lparr>stmts = [Import 1 [Alias 2 ''d''], FunctionDef 3 ''f'', FunctionDef 9 ''g'', Expr 10,
               FunctionDef 13 ''h'', FunctionDef 18 ''k''],
      chains =
        \<lparr>locals = [Alias 2 ''d'', FunctionDef 3 ''f'', FunctionDef 9 ''g'',
                   FunctionDef 13 ''h'', FunctionDef 18 ''k''],
         users = (\<lambda>n.
           if n = Alias 2 ''d'' then [Name 4 ''d'', Name 6 ''d'', Name 20 ''d'']
           else if n = FunctionDef 3 ''f''
             then [Name 15 ''f'', Name 17 ''f'', Name 12 ''f'', Name 21 ''f'']
           else [])\<rparr>,
      parents = (\<lambda>n.
        if n = Alias 2 ''d'' then [Module 0, Import 1 [Alias 2 ''d'']]
        else if n = Name 4 ''d''
          then [Module 0, FunctionDef 3 ''f'', Attribute 5 (Name 4 ''d'') ''dep'']
        else if n = Name 6 ''d''
          then [Module 0, FunctionDef 9 ''g'', Call 8, Attribute 7 (Name 6 ''d'') ''dep'']
        else if n = Name 20 ''d''
          then [Module 0, FunctionDef 18 ''k'', Attribute 19 (Name 20 ''d'') ''dep'']
        else if n = Name 17 ''f'' then [Module 0, FunctionDef 9 ''g'', Expr 24, Call 25]
        else if n = Name 12 ''f'' then [Module 0, Expr 10, Call 11]
        else if n = Name 15 ''f'' then [Module 0, FunctionDef 13 ''h'', Expr 14, Call 16]
        else if n = Name 21 ''f'' then [Module 0, FunctionDef 18 ''k'', Expr 22, Call 23]
        else [Module 0]),
      lineno = (\<lambda>n.
        if n = Name 17 ''f'' then 5 else if n = Name 12 ''f'' then 6
        else if n = Name 15 ''f'' then 8 else if n = Name 21 ''f'' then 10 else 1),
      col_offset = (\<lambda>n.
        if n = Name 17 ''f'' then 9 else if n = Name 12 ''f'' then 0
        else if n = Name 15 ''f'' then 4 else if n = Name 21 ''f'' then 9 else 0)\<rparr>"

text \<open>
  A module that imports the decorator by name, scanned for the decorator path
  \<open>deprecated.deprecated\<close>:
  \<^verbatim>\<open>
   1  from deprecated import deprecated
   2  @deprecated
   3  def f(): pass
   4  f()
  \<close>
\<close>

definition from_import_decorator :: "string list" where
  "from_import_decorator = [''deprecated'', ''deprecated'']"

definition from_import_module :: parsed_module where
  "from_import_module =
     \<lparr>stmts = [ImportFrom 1 (Some ''deprecated'') [Alias 2 ''deprecated''],
               FunctionDef 3 ''f'', Expr 5],
      chains =
        \<lparr>locals = [Alias 2 ''deprecated'', FunctionDef 3 ''f''],
         users = (\<lambda>n.
           if n = Alias 2 ''deprecated'' then [Name 4 ''deprecated'']
           else if n = FunctionDef 3 ''f'' then [Name 7 ''f'']
           else [])\<rparr>,
      parents = (\<lambda>n.
        if n = Alias 2 ''deprecated''
          then [Module 0, ImportFrom 1 (Some ''deprecated'') [Alias 2 ''deprecated'']]
        else if n = Name 4 ''deprecated'' then [Module 0, FunctionDef 3 ''f'']
        else if n = Name 7 ''f'' then [Module 0, Expr 5, Call 6]
        else [Module 0]),
      lineno = (\<lambda>n. if n = Name 7 ''f'' then 4 else 1),
      col_offset = (\<lambda>n. 0)\<rparr>"

section \<open>Notions used in the statements\<close>

text \<open>\<open>isinstance(p, ast.Attribute) and p.attr == a\<close>.\<close>

fun attribute_named :: "node \<Rightarrow> string \<Rightarrow> bool" where
  "attribute_named (Attribute _ _ a) b = (a = b)"
| "attribute_named _ _ = False"

text \<open>
  The match target of prefix mode in the words of the specification: the remaining
  segments are the names of the attribute accesses directly around the use, innermost
  first, and the target is the nearest enclosing definition above that chain.
\<close>

definition spec_prefix_target :: "string list \<Rightarrow> nat \<Rightarrow> Ancestors \<Rightarrow> node \<Rightarrow> node option" where
  "spec_prefix_target dec nbterms ancestors user =
     (let rest = drop nbterms dec; ps = ancestors user; k = length rest in
      if k \<le> length ps \<and> list_all2 attribute_named (drop (length ps - k) ps) (rev rest)
      then (case filter isinstance_defs (take (length ps - k) ps) of
              [] \<Rightarrow> None
            | d # ds \<Rightarrow> Some (last (d # ds)))
      else None)"

section \<open>The use-site propagator reports each reader once and never flags deprecated code\<close>

lemma filter_concat_map_none:
  "(\<And>y. y \<in> set xs \<Longrightarrow> filter P (f y) = []) \<Longrightarrow> filter P (concat (map f xs)) = []"
  by (induction xs) auto

lemma filter_concat_map_one:
  assumes "distinct xs" and "x \<in> set xs"
    and none: "\<And>y. y \<in> set xs \<Longrightarrow> y \<noteq> x \<Longrightarrow> filter P (f y) = []"
  shows "filter P (concat (map f xs)) = filter P (f x)"
  using assms
proof (induction xs)
  case Nil
  then show ?case by simp
next
  case (Cons a xs)
  show ?case
  proof (cases "a = x")
    case True
    with Cons.prems have "x \<notin> set xs" by simp
    with Cons.prems(3) have "filter P (concat (map f xs)) = []"
      by (intro filter_concat_map_none) auto
    with True show ?thesis by simp
  next
    case False
    with Cons.prems have "x \<in> set xs" "distinct xs" "filter P (f a) = []" by auto
    with Cons.IH Cons.prems(3) show ?thesis by simp
  qed
qed

lemma get_deprecated_users_mem:
  "(a, u, c) \<in> set (get_deprecated_users dep defuse anc) \<longleftrightarrow>
     a \<in> set dep \<and> u \<in> set (users defuse a) \<and>
     \<not> (\<exists>f \<in> set (anc u). isinstance_defs f \<and> f \<in> set dep) \<and>
     c = (if filter isinstance_defs (anc u) = [] then u else last (filter isinstance_defs (anc u)))"
  by (auto simp: get_deprecated_users_def user_ancestors_def)

text \<open>
  C2. Let \<open>D\<close> be in the Deprecated Set and \<open>u\<close> one of its readers. If some enclosing
  function, class or async function of \<open>u\<close> is in the Deprecated Set, no triple at all is
  emitted for \<open>u\<close>. Otherwise exactly one triple is emitted for \<open>D\<close> and \<open>u\<close>, and its
  context is the innermost enclosing definition of \<open>u\<close>, or \<open>u\<close> itself when there is
  none. (The set and the readers of a definition have no duplicates.)
\<close>

theorem get_deprecated_users_no_self_flagging:
  assumes "distinct dep" and "distinct (users defuse D)"
    and "D \<in> set dep" and "u \<in> set (users defuse D)"
  shows "((\<exists>f \<in> set (anc u). isinstance_defs f \<and> f \<in> set dep) \<longrightarrow>
            (\<forall>a c. (a, u, c) \<notin> set (get_deprecated_users dep defuse anc))) \<and>
         (\<not> (\<exists>f \<in> set (anc u). isinstance_defs f \<and> f \<in> set dep) \<longrightarrow>
            filter (\<lambda>(a, b, c). a = D \<and> b = u) (get_deprecated_users dep defuse anc) =
              [(D, u, if filter isinstance_defs (anc u) = [] then u
                      else last (filter isinstance_defs (anc u)))])"
proof (intro conjI impI)
  assume "\<exists>f \<in> set (anc u). isinstance_defs f \<and> f \<in> set dep"
  then show "\<forall>a c. (a, u, c) \<notin> set (get_deprecated_users dep defuse anc)"
    by (simp add: get_deprecated_users_mem)
next
  assume ok: "\<not> (\<exists>f \<in> set (anc u). isinstance_defs f \<and> f \<in> set dep)"
  let ?P = "\<lambda>(a, b, c). a = D \<and> b = (u::node)"
  let ?g = "\<lambda>D' u'. if \<exists>f \<in> set (user_ancestors anc u'). f \<in> set dep then []
         else [(D'::node, u'::node,
                if user_ancestors anc u' \<noteq> [] then last (user_ancestors anc u')
                else u')]"
  let ?h = "\<lambda>D'. concat (map (?g D') (users defuse D'))"
  have outer: "filter ?P (concat (map ?h dep)) = filter ?P (?h D)"
    using assms(1,3)
    by (rule filter_concat_map_one) (auto simp: filter_empty_conv)
  have inner: "filter ?P (?h D) = filter ?P (?g D u)"
    using assms(2,4)
    by (rule filter_concat_map_one) (auto simp: filter_empty_conv)
  have "filter ?P (?g D u) = [(D, u, if filter isinstance_defs (anc u) = [] then u
                      else last (filter isinstance_defs (anc u)))]"
    using ok by (auto simp: user_ancestors_def)
  with outer inner show "filter ?P (get_deprecated_users dep defuse anc) =
     [(D, u, if filter isinstance_defs (anc u) = [] then u
                      else last (filter isinstance_defs (anc u)))]"
    by (simp add: get_deprecated_users_def)
qed

text \<open>
  In the example, \<open>f\<close> and \<open>k\<close> are deprecated: the call of \<open>f\<close> inside \<open>h\<close> is reported
  once with the context \<open>h\<close>, the call inside \<open>k\<close> is not reported.
\<close>

theorem get_deprecated_users_no_self_flagging_witness:
  "filter (\<lambda>(a, b, c). a = FunctionDef 3 ''f'' \<and> b = Name 15 ''f'')
     (get_deprecated_users [FunctionDef 3 ''f'', FunctionDef 18 ''k'']
        (chains example_module) (parents example_module))
     = [(FunctionDef 3 ''f'', Name 15 ''f'', FunctionDef 13 ''h'')]
   \<and> (\<forall>a c. (a, Name 21 ''f'', c) \<notin>
        set (get_deprecated_users [FunctionDef 3 ''f'', FunctionDef 18 ''k'']
               (chains example_module) (parents example_module)))"
  using get_deprecated_users_no_self_flagging
          [of "[FunctionDef 3 ''f'', FunctionDef 18 ''k'']" "chains example_module"
              "FunctionDef 3 ''f''" "Name 15 ''f''" "parents example_module"]
        get_deprecated_users_no_self_flagging
          [of "[FunctionDef 3 ''f'', FunctionDef 18 ''k'']" "chains example_module"
              "FunctionDef 3 ''f''" "Name 21 ''f''" "parents example_module"]
  by (simp add: example_module_def)

section \<open>The decorator matcher\<close>

lemma attribute_named_iff: "attribute_named p a \<longleftrightarrow> (\<exists>j v. p = Attribute j v a)"
  by (cases p) auto

lemma set_set_add [simp]: "set (set_add x s) = insert x (set s)"
  by (auto simp: set_add_def)

lemma distinct_set_add [simp]: "distinct (set_add x s) = distinct s"
  by (auto simp: set_add_def)

lemma set_set_update [simp]: "set (set_update s xs) = set s \<union> set xs"
  by (induction xs arbitrary: s) auto

lemma distinct_set_update [simp]: "distinct (set_update s xs) = distinct s"
  by (induction xs arbitrary: s) auto

lemma consume_attrs_match:
  "list_all2 attribute_named chain attrs \<Longrightarrow> consume_attrs attrs (outer @ chain) = ([], outer)"
proof (induction chain arbitrary: attrs rule: rev_induct)
  case Nil
  then show ?case by (simp add: consume_attrs.simps)
next
  case (snoc x chain)
  from snoc.prems have len: "length attrs = Suc (length chain)"
    by (auto dest: list_all2_lengthD)
  then obtain as a where attrs: "attrs = as @ [a]"
    by (cases attrs rule: rev_cases) auto
  with len have "length chain = length as" by simp
  with snoc.prems attrs have rest: "list_all2 attribute_named chain as" and x: "attribute_named x a"
    by (simp_all add: list_all2_append)
  from x obtain j v where "x = Attribute j v a" by (auto simp: attribute_named_iff)
  then have "consume_attrs attrs (outer @ chain @ [x]) = consume_attrs as (outer @ chain)"
    using attrs by (subst consume_attrs.simps) (simp add: butlast_append)
  with snoc.IH [OF rest] show ?case by simp
qed

lemma consume_attrs_empty:
  "consume_attrs attrs ps = ([], ps') \<Longrightarrow>
     \<exists>chain. ps = ps' @ chain \<and> list_all2 attribute_named chain attrs"
proof (induction attrs ps rule: consume_attrs.induct)
  case (1 attrs ps)
  show ?case
  proof (cases "attrs \<noteq> [] \<and> ps \<noteq> []")
    case False
    with "1.prems" show ?thesis by (auto simp: consume_attrs.simps)
  next
    case True
    then have ne: "attrs \<noteq> []" "ps \<noteq> []" by simp_all
    from "1.prems" ne obtain j v where lp: "last ps = Attribute j v (last attrs)"
      and rec: "consume_attrs (butlast attrs) (butlast ps) = ([], ps')"
      by (subst (asm) consume_attrs.simps) (auto split: node.splits if_splits)
    from "1.IH" [OF True lp _ rec] obtain chain
      where c: "butlast ps = ps' @ chain" "list_all2 attribute_named chain (butlast attrs)"
      by auto
    have "ps = ps' @ (chain @ [last ps])"
      using c(1) ne(2) by (metis append_assoc append_butlast_last_id)
    moreover have "list_all2 attribute_named (chain @ [last ps]) (butlast attrs @ [last attrs])"
      using c(2) lp by (simp add: list_all2_appendI)
    ultimately show ?thesis using ne(1) by (metis append_butlast_last_id)
  qed
qed

lemma prefix_target_Some:
  "prefix_target dec n anc u = Inr (Some p) \<longleftrightarrow>
     (\<exists>outer chain. anc u = outer @ chain \<and>
        list_all2 attribute_named chain (rev (drop n dec)) \<and>
        outer \<noteq> [] \<and> p = last outer \<and> isinstance_defs p)"
proof
  assume "prefix_target dec n anc u = Inr (Some p)"
  then obtain ps where c: "consume_attrs (rev (drop n dec)) (anc u) = ([], ps)"
    and ps: "ps \<noteq> []" "isinstance_defs (last ps)" "p = last ps"
    by (auto simp: prefix_target_def split: prod.splits if_splits)
  from consume_attrs_empty [OF c] ps show
    "\<exists>outer chain. anc u = outer @ chain \<and>
        list_all2 attribute_named chain (rev (drop n dec)) \<and>
        outer \<noteq> [] \<and> p = last outer \<and> isinstance_defs p"
    by blast
next
  assume "\<exists>outer chain. anc u = outer @ chain \<and>
        list_all2 attribute_named chain (rev (drop n dec)) \<and>
        outer \<noteq> [] \<and> p = last outer \<and> isinstance_defs p"
  then obtain outer chain where a: "anc u = outer @ chain"
    "list_all2 attribute_named chain (rev (drop n dec))"
    "outer \<noteq> []" "p = last outer" "isinstance_defs p" by blast
  from consume_attrs_match [OF a(2), of outer] a show "prefix_target dec n anc u = Inr (Some p)"
    by (simp add: prefix_target_def)
qed

lemma final_target_Some:
  "final_target anc u = Inr (Some p) \<longleftrightarrow> anc u \<noteq> [] \<and> p = last (anc u) \<and> isinstance_defs p"
  by (auto simp: final_target_def)

lemma add_targets_set:
  "add_targets t us acc = Inr r \<Longrightarrow> set r = set acc \<union> {p. \<exists>u \<in> set us. t u = Inr (Some p)}"
  by (induction us arbitrary: acc) (auto split: sum.splits option.splits)

lemma add_targets_distinct:
  "add_targets t us acc = Inr r \<Longrightarrow> distinct acc \<Longrightarrow> distinct r"
  by (induction us arbitrary: acc) (auto split: sum.splits option.splits)

lemma add_targets_ok_iff:
  "(\<exists>r. add_targets t us acc = Inr r) \<longleftrightarrow> (\<forall>u \<in> set us. \<exists>x. t u = Inr x)"
  by (induction us arbitrary: acc) (auto split: sum.splits option.splits)

lemma add_targets_acc:
  assumes "add_targets t us acc = Inr r"
  shows "\<exists>r0. add_targets t us [] = Inr r0 \<and> set r = set acc \<union> set r0"
proof -
  from assms have "\<forall>u \<in> set us. \<exists>x. t u = Inr x" using add_targets_ok_iff by blast
  then obtain r0 where r0: "add_targets t us [] = Inr r0" using add_targets_ok_iff by blast
  with assms show ?thesis by (auto dest!: add_targets_set)
qed

lemma collect_local_shape:
  "(\<exists>t. \<forall>acc. collect_local dec duc anc dl acc = add_targets t (users duc dl) acc) \<or>
   (\<forall>acc. collect_local dec duc anc dl acc = Inr acc) \<or>
   (\<forall>acc. collect_local dec duc anc dl acc = Inl IndexError)"
proof (cases dl)
  case (Alias i nm)
  show ?thesis
  proof (cases "split_dot nm = take (length (split_dot nm)) dec")
    case True
    with Alias show ?thesis by (auto simp: collect_local_def Let_def)
  next
    case np: False
    show ?thesis
    proof (cases "split_dot nm = drop (length dec - 1) dec")
      case False
      with np Alias show ?thesis by (simp add: collect_local_def Let_def)
    next
      case True
      show ?thesis
      proof (cases "anc dl = []")
        case True
        with np \<open>split_dot nm = drop (length dec - 1) dec\<close> Alias show ?thesis
          by (simp add: collect_local_def Let_def)
      next
        case False
        with np True Alias show ?thesis
          by (cases "last (anc dl)") (auto simp: collect_local_def Let_def)
      qed
    qed
  qed
qed (simp_all add: collect_local_def)

lemma collect_local_acc:
  assumes "collect_local dec duc anc dl acc = Inr r"
  shows "\<exists>r0. collect_local dec duc anc dl [] = Inr r0 \<and> set r = set acc \<union> set r0"
  using collect_local_shape [of dec duc anc dl] assms
  by (auto dest: add_targets_acc)

lemma collect_local_distinct:
  "collect_local dec duc anc dl acc = Inr r \<Longrightarrow> distinct acc \<Longrightarrow> distinct r"
  using collect_local_shape [of dec duc anc dl]
  by (auto dest: add_targets_distinct)

lemma collect_locals_contains:
  "collect_locals dec duc anc ds acc = Inr deps \<Longrightarrow>
     set acc \<subseteq> set deps \<and>
     (\<forall>dl \<in> set ds. \<exists>r0. collect_local dec duc anc dl [] = Inr r0 \<and> set r0 \<subseteq> set deps)"
proof (induction ds arbitrary: acc)
  case Nil
  then show ?case by simp
next
  case (Cons d ds)
  from Cons.prems obtain acc' where d: "collect_local dec duc anc d acc = Inr acc'"
    and rest: "collect_locals dec duc anc ds acc' = Inr deps"
    by (auto split: sum.splits)
  from collect_local_acc [OF d] obtain r0 where
    r0: "collect_local dec duc anc d [] = Inr r0" "set acc' = set acc \<union> set r0" by blast
  from Cons.IH [OF rest] r0 show ?case by auto
qed

lemma collect_locals_distinct:
  "collect_locals dec duc anc ds acc = Inr deps \<Longrightarrow> distinct acc \<Longrightarrow> distinct deps"
  by (induction ds arbitrary: acc) (auto split: sum.splits dest: collect_local_distinct)

lemma collect_locals_only:
  "collect_locals dec duc anc ds acc = Inr deps \<Longrightarrow>
     set deps = set acc \<union> (\<Union>dl \<in> set ds. {d. \<exists>r0. collect_local dec duc anc dl [] = Inr r0 \<and> d \<in> set r0})"
proof (induction ds arbitrary: acc)
  case Nil
  then show ?case by simp
next
  case (Cons d ds)
  from Cons.prems obtain acc' where d: "collect_local dec duc anc d acc = Inr acc'"
    and rest: "collect_locals dec duc anc ds acc' = Inr deps"
    by (auto split: sum.splits)
  from collect_local_acc [OF d] obtain r0 where
    r0: "collect_local dec duc anc d [] = Inr r0" "set acc' = set acc \<union> set r0" by blast
  from Cons.IH [OF rest] r0 show ?case by auto
qed

lemma collect_deprecated_example:
  "collect_deprecated example_decorator (chains example_module) (parents example_module)
     = Inr [FunctionDef 3 ''f'', FunctionDef 18 ''k'']"
  by code_simp

text \<open>
  C1, as the code has it. Let a local binding \<open>import ... as\<close> import a dotted path that
  is a prefix of the decorator path. Its contribution to the Deprecated Set is made of
  the nodes \<open>d\<close> such that, for some use of the binding, the remaining segments of the
  decorator path are, in order, the names of the attribute accesses directly around the
  use (the innermost first), and \<open>d\<close> is the node directly above that chain and is a
  function, class or async function definition. A use whose chain is matched under any
  other node contributes nothing, even inside a definition.
\<close>

theorem prefix_mode_matching:
  assumes "collect_deprecated dec duc anc = Inr deps"
    and "Alias i nm \<in> set (locals duc)"
    and "split_dot nm = take (length (split_dot nm)) dec"
  shows "\<exists>r. collect_local dec duc anc (Alias i nm) [] = Inr r \<and> set r \<subseteq> set deps \<and>
           set r = {d. \<exists>u \<in> set (users duc (Alias i nm)). \<exists>outer chain.
                      anc u = outer @ chain \<and>
                      list_all2 attribute_named chain (rev (drop (length (split_dot nm)) dec)) \<and>
                      outer \<noteq> [] \<and> d = last outer \<and> isinstance_defs d}"
proof -
  from assms(1,2) obtain r where r: "collect_local dec duc anc (Alias i nm) [] = Inr r"
    and sub: "set r \<subseteq> set deps"
    unfolding collect_deprecated_def by (blast dest: collect_locals_contains)
  from r assms(3) have "add_targets (prefix_target dec (length (split_dot nm)) anc)
      (users duc (Alias i nm)) [] = Inr r"
    by (simp add: collect_local_def Let_def)
  from add_targets_set [OF this] have
    "set r = {d. \<exists>u \<in> set (users duc (Alias i nm)). \<exists>outer chain.
                      anc u = outer @ chain \<and>
                      list_all2 attribute_named chain (rev (drop (length (split_dot nm)) dec)) \<and>
                      outer \<noteq> [] \<and> d = last outer \<and> isinstance_defs d}"
    by (simp add: prefix_target_Some)
  with r sub show ?thesis by blast
qed

text \<open>In the example the binding \<open>d\<close> contributes \<open>f\<close> and \<open>k\<close>.\<close>

theorem prefix_mode_matching_witness:
  "\<exists>r. collect_local example_decorator (chains example_module) (parents example_module)
          (Alias 2 ''d'') [] = Inr r \<and>
       set r \<subseteq> set [FunctionDef 3 ''f'', FunctionDef 18 ''k''] \<and>
       set r = {d. \<exists>u \<in> set (users (chains example_module) (Alias 2 ''d'')). \<exists>outer chain.
                  parents example_module u = outer @ chain \<and>
                  list_all2 attribute_named chain
                    (rev (drop (length (split_dot ''d'')) example_decorator)) \<and>
                  outer \<noteq> [] \<and> d = last outer \<and> isinstance_defs d}"
proof -
  have h2: "Alias 2 ''d'' \<in> set (locals (chains example_module))"
    by (simp add: example_module_def)
  have h3: "split_dot ''d'' = take (length (split_dot ''d'')) example_decorator"
    by (simp add: example_decorator_def)
  from prefix_mode_matching [OF collect_deprecated_example h2 h3] show ?thesis .
qed

text \<open>
  C1 as stated fails on \<open>@d.dep("soon")\<close> above \<open>def g\<close>: the chain \<open>d.dep\<close> is matched and
  \<open>g\<close> is the nearest enclosing definition above it, but the node directly above the
  chain is the call, and \<open>g\<close> is not added.
\<close>

theorem prefix_mode_nearest_definition_counterexample:
  "spec_prefix_target example_decorator 1 (parents example_module) (Name 6 ''d'')
     = Some (FunctionDef 9 ''g'') \<and>
   prefix_target example_decorator 1 (parents example_module) (Name 6 ''d'') = Inr None \<and>
   collect_deprecated example_decorator (chains example_module) (parents example_module)
     = Inr [FunctionDef 3 ''f'', FunctionDef 18 ''k'']"
  by code_simp

lemma split_dot_no_dot: "CHR ''.'' \<notin> set s \<Longrightarrow> split_dot s = [s]"
  by (induction s) auto

text \<open>
  Final-segment mode when the binding does not also match prefix mode: every use directly
  below a definition adds that definition, and nothing else is added.
\<close>

lemma final_segment_mode_when_not_prefix:
  assumes "collect_deprecated dec duc anc = Inr deps"
    and "Alias i nm \<in> set (locals duc)"
    and "dec \<noteq> []" and "nm = last dec" and "CHR ''.'' \<notin> set nm" and "nm \<noteq> hd dec"
    and "anc (Alias i nm) = ps @ [ImportFrom j (Some (join_dot (butlast dec))) names]"
  shows "\<exists>r. collect_local dec duc anc (Alias i nm) [] = Inr r \<and> set r \<subseteq> set deps \<and>
           set r = {d. \<exists>u \<in> set (users duc (Alias i nm)).
                      anc u \<noteq> [] \<and> d = last (anc u) \<and> isinstance_defs d}"
proof -
  from assms(1,2) obtain r where r: "collect_local dec duc anc (Alias i nm) [] = Inr r"
    and sub: "set r \<subseteq> set deps"
    unfolding collect_deprecated_def by (blast dest: collect_locals_contains)
  have sp: "split_dot nm = [nm]" using assms(5) by (rule split_dot_no_dot)
  have np: "[nm] \<noteq> take (Suc 0) dec" using assms(3,6) by (cases dec) auto
  have fin: "[nm] = drop (length dec - 1) dec"
    using assms(3,4) by (metis append_butlast_last_id append_eq_conv_conj length_butlast)
  have c1: "(split_dot nm = take (length (split_dot nm)) dec) = False"
    using sp np by simp
  have c2: "(split_dot nm = drop (length dec - 1) dec) = True"
    using sp fin by simp
  have c3: "(anc (Alias i nm) = []) = False"
    "last (anc (Alias i nm)) = ImportFrom j (Some (join_dot (butlast dec))) names"
    using assms(7) by simp_all
  have "collect_local dec duc anc (Alias i nm) [] =
      add_targets (final_target anc) (users duc (Alias i nm)) []"
    unfolding collect_local_def Let_def
    by (simp only: node.case c1 c2 c3 if_False if_True simp_thms)
  with r have "add_targets (final_target anc) (users duc (Alias i nm)) [] = Inr r"
    by simp
  from add_targets_set [OF this] have
    "set r = {d. \<exists>u \<in> set (users duc (Alias i nm)).
                      anc u \<noteq> [] \<and> d = last (anc u) \<and> isinstance_defs d}"
    by (simp add: final_target_Some)
  with r sub show ?thesis by blast
qed

text \<open>
  C6 on \<open>from deprecated import deprecated\<close> with the decorator path
  \<open>deprecated.deprecated\<close>: the imported name is the last segment, the source module is
  the path without its last segment, and the use \<open>@deprecated\<close> is directly below
  \<open>def f\<close>; the final-segment step alone gives \<open>f\<close>. But the name is also the first
  segment, so the prefix branch is taken, the \<open>elif\<close> is never reached and the
  Deprecated Set stays empty.
\<close>

theorem final_segment_mode_shadowed:
  "last from_import_decorator = ''deprecated'' \<and>
   join_dot (butlast from_import_decorator) = ''deprecated'' \<and>
   final_target (parents from_import_module) (Name 4 ''deprecated'')
     = Inr (Some (FunctionDef 3 ''f'')) \<and>
   collect_deprecated from_import_decorator (chains from_import_module)
     (parents from_import_module) = Inr []"
  by code_simp

end
